theory Spec2Isabelle
  imports Main
begin

section \<open>JavaScript values read by the dashboard\<close>

text \<open>
  The dashboard component (\<^verbatim>\<open>frontend/src/components/Dashboard.jsx\<close>) stores what the
  server sends without converting it, so the state holds JavaScript values. Counts are
  integers; an object is its list of properties.
\<close>

datatype jsval =
    JUndefined
  | JNull
  | JBool bool
  | JNum int
  | JStr string
  | JArr "jsval list"
  | JObj "(string \<times> jsval) list"

type_synonym jsobj = "(string \<times> jsval) list"

datatype js_error = SyntaxError | TypeError

text \<open>
  Reading a property \<^verbatim>\<open>v.k\<close>: a TypeError on \<^verbatim>\<open>undefined\<close> and \<^verbatim>\<open>null\<close>, the
  property's value on an object that has it, \<^verbatim>\<open>undefined\<close> otherwise. The component
  reads only the names type, data, last_24_hours, distribution, total, positive, negative
  and neutral, none of which a number, string, boolean or array defines.
\<close>

fun get_prop :: "jsval \<Rightarrow> string \<Rightarrow> js_error + jsval" where
  "get_prop JUndefined k = Inl TypeError"
| "get_prop JNull k = Inl TypeError"
| "get_prop (JObj kvs) k = Inr (case map_of kvs k of None \<Rightarrow> JUndefined | Some v \<Rightarrow> v)"
| "get_prop v k = Inr JUndefined"

text \<open>
  A text frame of the push channel (\<^verbatim>\<open>event.data\<close>) is given by what \<^verbatim>\<open>JSON.parse\<close>
  makes of it: it either throws a SyntaxError or returns a value.
\<close>

datatype frame = Unparseable | Parses jsval

fun JSON_parse :: "frame \<Rightarrow> js_error + jsval" where
  "JSON_parse Unparseable = Inl SyntaxError"
| "JSON_parse (Parses v) = Inr v"

section \<open>The component state\<close>

datatype conn_status = connecting | connected | disconnected

text \<open>The six \<^verbatim>\<open>useState\<close> cells of \<^verbatim>\<open>Dashboard\<close>; \<open>lastUpdate\<close> is a clock reading.\<close>

record dashboard =
  distributionData :: "(string \<times> jsval) list"
  trendData :: "jsobj list"
  recentPosts :: "jsval list"
  metrics :: jsval
  connectionStatus :: conn_status
  lastUpdate :: nat

definition metrics0 :: jsval where
  "metrics0 = JObj [(''total'', JNum 0), (''positive'', JNum 0),
                    (''negative'', JNum 0), (''neutral'', JNum 0)]"

definition initial_dashboard :: "nat \<Rightarrow> dashboard" where
  "initial_dashboard now =
     \<lparr> distributionData = [], trendData = [], recentPosts = [], metrics = metrics0,
       connectionStatus = connecting, lastUpdate = now \<rparr>"

section \<open>The message handler\<close>

text \<open>
  A handler that throws keeps the state updates it had queued before the throw, so a handler
  returns how it ended together with the state.
\<close>

datatype outcome = Completed | Threw js_error

text \<open>
  \<^verbatim>\<open>ws.current.onmessage\<close>: parse, stamp \<open>lastUpdate\<close>, then dispatch on
  \<^verbatim>\<open>message.type\<close>. \<^verbatim>\<open>[message.data, ...prev].slice(0, 50)\<close> is \<open>take 50 (d # prev)\<close>.
\<close>

definition onmessage :: "frame \<Rightarrow> nat \<Rightarrow> dashboard \<Rightarrow> outcome \<times> dashboard" where
  "onmessage event_data now v =
     (case JSON_parse event_data of
        Inl e \<Rightarrow> (Threw e, v)
      | Inr message \<Rightarrow>
          (let v1 = v\<lparr>lastUpdate := now\<rparr> in
           case get_prop message ''type'' of
             Inl e \<Rightarrow> (Threw e, v1)
           | Inr ty \<Rightarrow>
               if ty = JStr ''new_post'' then
                 (case get_prop message ''data'' of
                    Inl e \<Rightarrow> (Threw e, v1)
                  | Inr d \<Rightarrow> (Completed, v1\<lparr>recentPosts := take 50 (d # recentPosts v1)\<rparr>))
               else if ty = JStr ''metrics_update'' then
                 (case get_prop message ''data'' of
                    Inl e \<Rightarrow> (Threw e, v1)
                  | Inr md \<Rightarrow>
                      (case get_prop md ''last_24_hours'' of
                         Inl e \<Rightarrow> (Threw e, v1)
                       | Inr data \<Rightarrow>
                           (let v2 = v1\<lparr>metrics := data\<rparr> in
                            case get_prop data ''positive'' of
                              Inl e \<Rightarrow> (Threw e, v2)
                            | Inr p \<Rightarrow>
                                (case get_prop data ''negative'' of
                                   Inl e \<Rightarrow> (Threw e, v2)
                                 | Inr n \<Rightarrow>
                                     (case get_prop data ''neutral'' of
                                        Inl e \<Rightarrow> (Threw e, v2)
                                      | Inr u \<Rightarrow>
                                          (Completed,
                                           v2\<lparr>distributionData :=
                                                [(''Positive'', p), (''Negative'', n),
                                                 (''Neutral'', u)]\<rparr>))))))
               else (Completed, v1)))"

section \<open>The runtime around the component\<close>

text \<open>
  Sockets are numbered in the order \<^verbatim>\<open>new WebSocket(WS_URL)\<close> creates them; each has a
  ready state. A pending timer is its delay in milliseconds: every timer of the component
  calls \<^verbatim>\<open>connectWebSocket\<close>.
\<close>

datatype ready_state = CONNECTING | OPEN | CLOSING | CLOSED

datatype request = GetDistribution nat | GetAggregate string | GetPosts nat

datatype caught = AxiosError | JsError js_error

datatype log_entry = ConsoleLog string | ConsoleError string caught

datatype 'a response = Rejected | Resolved 'a

text \<open>
  Where \<^verbatim>\<open>fetchData\<close> is suspended: at one of its three \<^verbatim>\<open>await\<close>s, with the
  locals \<^verbatim>\<open>distRes.data\<close> and \<^verbatim>\<open>dist\<close> it holds there.
\<close>

datatype loader = NotStarted | AwaitDist | AwaitTrend jsval jsval | AwaitPosts jsval jsval
  | Finished

datatype phase = Created | Mounted | TornDown

record runtime =
  view :: dashboard
  ws_current :: "nat option"
  sockets :: "ready_state list"
  timers :: "nat list"
  loader :: loader
  requests :: "request list"
  console :: "log_entry list"
  uncaught :: "js_error list"
  phase :: phase

definition initial_runtime :: "nat \<Rightarrow> runtime" where
  "initial_runtime now =
     \<lparr> view = initial_dashboard now, ws_current = None, sockets = [], timers = [],
       loader = NotStarted, requests = [], console = [], uncaught = [], phase = Created \<rparr>"

subsection \<open>The connection effect\<close>

definition connectWebSocket :: "runtime \<Rightarrow> runtime" where
  "connectWebSocket rt =
     rt\<lparr>sockets := sockets rt @ [CONNECTING], ws_current := Some (length (sockets rt))\<rparr>"

definition onopen :: "runtime \<Rightarrow> runtime" where
  "onopen rt =
     rt\<lparr>view := (view rt)\<lparr>connectionStatus := connected\<rparr>,
        console := console rt @ [ConsoleLog ''Connected to WebSocket'']\<rparr>"

definition onclose :: "runtime \<Rightarrow> runtime" where
  "onclose rt =
     rt\<lparr>view := (view rt)\<lparr>connectionStatus := disconnected\<rparr>,
        timers := timers rt @ [3000]\<rparr>"

text \<open>
  \<^verbatim>\<open>socket.close()\<close> moves a socket that is connecting or open to CLOSING and does nothing
  to one that is closing or closed; the close event comes later.
\<close>

definition socket_close :: "nat \<Rightarrow> runtime \<Rightarrow> runtime" where
  "socket_close i rt =
     (if i < length (sockets rt) \<and> (sockets rt ! i = CONNECTING \<or> sockets rt ! i = OPEN)
      then rt\<lparr>sockets := (sockets rt)[i := CLOSING]\<rparr> else rt)"

text \<open>The cleanup the connection effect returns: \<^verbatim>\<open>if (ws.current) ws.current.close()\<close>.\<close>

definition cleanup :: "runtime \<Rightarrow> runtime" where
  "cleanup rt = (case ws_current rt of None \<Rightarrow> rt | Some i \<Rightarrow> socket_close i rt)"

subsection \<open>The snapshot effect\<close>

text \<open>
  \<^verbatim>\<open>{...item, timestamp: item.timestamp}\<close> on an object: the property keeps its place when
  the item has it and is added at the end otherwise.
\<close>

fun set_prop :: "jsobj \<Rightarrow> string \<Rightarrow> jsval \<Rightarrow> jsobj" where
  "set_prop [] k v = [(k, v)]"
| "set_prop ((k', v') # kvs) k v =
     (if k' = k then (k, v) # kvs else (k', v') # set_prop kvs k v)"

definition with_timestamp :: "jsobj \<Rightarrow> jsobj" where
  "with_timestamp item =
     set_prop item ''timestamp''
       (case map_of item ''timestamp'' of None \<Rightarrow> JUndefined | Some t \<Rightarrow> t)"

text \<open>The \<^verbatim>\<open>catch\<close> block of \<^verbatim>\<open>fetchData\<close>: one \<^verbatim>\<open>console.error\<close>, then the function ends.\<close>

definition catch_fetch :: "caught \<Rightarrow> runtime \<Rightarrow> runtime" where
  "catch_fetch c rt =
     rt\<lparr>console := console rt @ [ConsoleError ''Failed to fetch initial data:'' c],
        loader := Finished\<rparr>"

text \<open>\<^verbatim>\<open>fetchData\<close> up to its first \<^verbatim>\<open>await\<close>: the distribution request is issued.\<close>

definition fetch_start :: "runtime \<Rightarrow> runtime" where
  "fetch_start rt = rt\<lparr>requests := requests rt @ [GetDistribution 24], loader := AwaitDist\<rparr>"

text \<open>
  From the first \<^verbatim>\<open>await\<close> to the second. The body of a response is a value; the trend
  and posts endpoints answer with an array (of objects, for the trend).
\<close>

definition on_dist :: "jsval response \<Rightarrow> runtime \<Rightarrow> runtime" where
  "on_dist r rt =
     (case loader rt of
        AwaitDist \<Rightarrow>
          (case r of
             Rejected \<Rightarrow> catch_fetch AxiosError rt
           | Resolved body \<Rightarrow>
               (case get_prop body ''distribution'' of
                  Inl e \<Rightarrow> catch_fetch (JsError e) rt
                | Inr dist \<Rightarrow>
                    (case get_prop dist ''positive'' of
                       Inl e \<Rightarrow> catch_fetch (JsError e) rt
                     | Inr p \<Rightarrow>
                         (case get_prop dist ''negative'' of
                            Inl e \<Rightarrow> catch_fetch (JsError e) rt
                          | Inr n \<Rightarrow>
                              (case get_prop dist ''neutral'' of
                                 Inl e \<Rightarrow> catch_fetch (JsError e) rt
                               | Inr u \<Rightarrow>
                                   rt\<lparr>view := (view rt)\<lparr>distributionData :=
                                          [(''Positive'', p), (''Negative'', n),
                                           (''Neutral'', u)]\<rparr>,
                                      requests := requests rt @ [GetAggregate ''hour''],
                                      loader := AwaitTrend body dist\<rparr>)))))
      | _ \<Rightarrow> rt)"

definition on_trend :: "jsobj list response \<Rightarrow> runtime \<Rightarrow> runtime" where
  "on_trend r rt =
     (case loader rt of
        AwaitTrend body dist \<Rightarrow>
          (case r of
             Rejected \<Rightarrow> catch_fetch AxiosError rt
           | Resolved items \<Rightarrow>
               rt\<lparr>view := (view rt)\<lparr>trendData := map with_timestamp items\<rparr>,
                  requests := requests rt @ [GetPosts 50],
                  loader := AwaitPosts body dist\<rparr>)
      | _ \<Rightarrow> rt)"

definition on_posts :: "jsval list response \<Rightarrow> runtime \<Rightarrow> runtime" where
  "on_posts r rt =
     (case loader rt of
        AwaitPosts body dist \<Rightarrow>
          (case r of
             Rejected \<Rightarrow> catch_fetch AxiosError rt
           | Resolved posts \<Rightarrow>
               (let rt1 = rt\<lparr>view := (view rt)\<lparr>recentPosts := posts\<rparr>\<rparr> in
                case get_prop body ''total'' of
                  Inl e \<Rightarrow> catch_fetch (JsError e) rt1
                | Inr t \<Rightarrow>
                    (case get_prop dist ''positive'' of
                       Inl e \<Rightarrow> catch_fetch (JsError e) rt1
                     | Inr p \<Rightarrow>
                         (case get_prop dist ''negative'' of
                            Inl e \<Rightarrow> catch_fetch (JsError e) rt1
                          | Inr n \<Rightarrow>
                              (case get_prop dist ''neutral'' of
                                 Inl e \<Rightarrow> catch_fetch (JsError e) rt1
                               | Inr u \<Rightarrow>
                                   rt1\<lparr>view := (view rt1)\<lparr>metrics :=
                                           JObj [(''total'', t), (''positive'', p),
                                                 (''negative'', n), (''neutral'', u)]\<rparr>,
                                       loader := Finished\<rparr>)))))
      | _ \<Rightarrow> rt)"

text \<open>\<^verbatim>\<open>fetchData\<close> run to its end with nothing else in between.\<close>

definition fetchData ::
  "jsval response \<Rightarrow> jsobj list response \<Rightarrow> jsval list response \<Rightarrow> runtime \<Rightarrow> runtime" where
  "fetchData rd rt rp s = on_posts rp (on_trend rt (on_dist rd (fetch_start s)))"

subsection \<open>The event loop\<close>

text \<open>
  What can happen to the component, one callback at a time: mounting runs both effects,
  the three responses resume \<^verbatim>\<open>fetchData\<close>, a socket opens, closes or delivers a frame
  (only while open), the oldest timer fires, unmounting runs the cleanup. An event that
  cannot happen in the state gives None.
\<close>

datatype event =
    Mount
  | DistResponse "jsval response"
  | TrendResponse "jsobj list response"
  | PostsResponse "jsval list response"
  | SocketOpen nat
  | SocketClose nat
  | SocketMessage nat frame nat
  | TimerFire
  | Unmount

definition is_await_trend :: "loader \<Rightarrow> bool" where
  "is_await_trend l = (case l of AwaitTrend b d \<Rightarrow> True | _ \<Rightarrow> False)"

definition is_await_posts :: "loader \<Rightarrow> bool" where
  "is_await_posts l = (case l of AwaitPosts b d \<Rightarrow> True | _ \<Rightarrow> False)"

definition deliver :: "frame \<Rightarrow> nat \<Rightarrow> runtime \<Rightarrow> runtime" where
  "deliver f now rt =
     (case onmessage f now (view rt) of
        (Completed, v) \<Rightarrow> rt\<lparr>view := v\<rparr>
      | (Threw e, v) \<Rightarrow> rt\<lparr>view := v, uncaught := uncaught rt @ [e]\<rparr>)"

fun step :: "event \<Rightarrow> runtime \<Rightarrow> runtime option" where
  "step Mount rt =
     (if phase rt = Created
      then Some (connectWebSocket (fetch_start (rt\<lparr>phase := Mounted\<rparr>))) else None)"
| "step (DistResponse r) rt =
     (if loader rt = AwaitDist then Some (on_dist r rt) else None)"
| "step (TrendResponse r) rt =
     (if is_await_trend (loader rt) then Some (on_trend r rt) else None)"
| "step (PostsResponse r) rt =
     (if is_await_posts (loader rt) then Some (on_posts r rt) else None)"
| "step (SocketOpen i) rt =
     (if i < length (sockets rt) \<and> sockets rt ! i = CONNECTING
      then Some (onopen (rt\<lparr>sockets := (sockets rt)[i := OPEN]\<rparr>)) else None)"
| "step (SocketClose i) rt =
     (if i < length (sockets rt) \<and> sockets rt ! i \<noteq> CLOSED
      then Some (onclose (rt\<lparr>sockets := (sockets rt)[i := CLOSED]\<rparr>)) else None)"
| "step (SocketMessage i f now) rt =
     (if i < length (sockets rt) \<and> sockets rt ! i = OPEN
      then Some (deliver f now rt) else None)"
| "step TimerFire rt =
     (case timers rt of
        [] \<Rightarrow> None
      | d # ds \<Rightarrow> Some (connectWebSocket (rt\<lparr>timers := ds\<rparr>)))"
| "step Unmount rt =
     (if phase rt = Mounted then Some (cleanup (rt\<lparr>phase := TornDown\<rparr>)) else None)"

fun run :: "event list \<Rightarrow> runtime \<Rightarrow> runtime option" where
  "run [] rt = Some rt"
| "run (e # es) rt = (case step e rt of None \<Rightarrow> None | Some rt' \<Rightarrow> run es rt')"

text \<open>Frames handed to the handler one after the other, each with its receipt time.\<close>

fun receive_all :: "(frame \<times> nat) list \<Rightarrow> dashboard \<Rightarrow> dashboard" where
  "receive_all [] v = v"
| "receive_all ((f, now) # fs) v = receive_all fs (snd (onmessage f now v))"

section \<open>Classifying inputs\<close>

text \<open>The post a frame carries when the handler takes its \<^verbatim>\<open>new_post\<close> branch.\<close>

definition new_post_of :: "frame \<Rightarrow> jsval option" where
  "new_post_of f =
     (case JSON_parse f of
        Inl e \<Rightarrow> None
      | Inr message \<Rightarrow>
          if get_prop message ''type'' = Inr (JStr ''new_post'')
          then (case get_prop message ''data'' of Inl e \<Rightarrow> None | Inr d \<Rightarrow> Some d)
          else None)"

text \<open>
  The value a frame hands to \<^verbatim>\<open>setMetrics\<close> when the handler takes its
  \<^verbatim>\<open>metrics_update\<close> branch and reads \<^verbatim>\<open>message.data.last_24_hours\<close>.
\<close>

definition metrics_update_of :: "frame \<Rightarrow> jsval option" where
  "metrics_update_of f =
     (case JSON_parse f of
        Inl e \<Rightarrow> None
      | Inr message \<Rightarrow>
          if get_prop message ''type'' = Inr (JStr ''metrics_update'')
          then (case get_prop message ''data'' of
                  Inl e \<Rightarrow> None
                | Inr md \<Rightarrow>
                    (case get_prop md ''last_24_hours'' of Inl e \<Rightarrow> None | Inr d \<Rightarrow> Some d))
          else None)"

text \<open>A count read from a metrics object.\<close>

definition count_of :: "jsval \<Rightarrow> string \<Rightarrow> int option" where
  "count_of v k = (case get_prop v k of Inr (JNum c) \<Rightarrow> Some c | _ \<Rightarrow> None)"

text \<open>The counts of a metrics value add up: positive + negative + neutral = total.\<close>

definition metrics_consistent :: "jsval \<Rightarrow> bool" where
  "metrics_consistent m =
     (case (count_of m ''positive'', count_of m ''negative'', count_of m ''neutral'',
            count_of m ''total'') of
        (Some p, Some n, Some u, Some t) \<Rightarrow> p + n + u = t
      | _ \<Rightarrow> False)"

text \<open>
  The same for the body of the distribution response, whose total is \<^verbatim>\<open>data.total\<close> and
  whose counts are under \<^verbatim>\<open>data.distribution\<close>.
\<close>

definition snapshot_consistent :: "jsval \<Rightarrow> jsval \<Rightarrow> bool" where
  "snapshot_consistent body dist =
     (case (count_of dist ''positive'', count_of dist ''negative'', count_of dist ''neutral'',
            count_of body ''total'') of
        (Some p, Some n, Some u, Some t) \<Rightarrow> p + n + u = t
      | _ \<Rightarrow> False)"

definition dist_body_consistent :: "jsval \<Rightarrow> bool" where
  "dist_body_consistent body =
     (case get_prop body ''distribution'' of
        Inl e \<Rightarrow> False
      | Inr dist \<Rightarrow> snapshot_consistent body dist)"

text \<open>
  What the server is assumed to send: a posts response of at most 50 posts (the request
  asks for \<^verbatim>\<open>limit=50\<close>), consistent counts in a distribution response and in a
  metrics update.
\<close>

fun at_most_50_posts :: "event \<Rightarrow> bool" where
  "at_most_50_posts (PostsResponse (Resolved posts)) = (length posts \<le> 50)"
| "at_most_50_posts e = True"

fun consistent_payload :: "event \<Rightarrow> bool" where
  "consistent_payload (DistResponse (Resolved body)) = dist_body_consistent body"
| "consistent_payload (SocketMessage i f now) =
     (case metrics_update_of f of None \<Rightarrow> True | Some d \<Rightarrow> metrics_consistent d)"
| "consistent_payload e = True"

section \<open>Invariants of the event loop\<close>

text \<open>
  While \<^verbatim>\<open>fetchData\<close> is suspended, the locals it holds come from a consistent
  distribution response.
\<close>

definition loader_ok :: "loader \<Rightarrow> bool" where
  "loader_ok l =
     (case l of
        AwaitTrend body dist \<Rightarrow> snapshot_consistent body dist
      | AwaitPosts body dist \<Rightarrow> snapshot_consistent body dist
      | _ \<Rightarrow> True)"

text \<open>The sockets that have not had their close event.\<close>

definition live_sockets :: "runtime \<Rightarrow> nat" where
  "live_sockets rt = length (filter (\<lambda>s. s \<noteq> CLOSED) (sockets rt))"

text \<open>
  Once mounted there is exactly one connection attempt in flight: a socket that has not
  closed, or a timer that will create the next one.
\<close>

definition one_connection :: "runtime \<Rightarrow> bool" where
  "one_connection rt =
     (if phase rt = Created then sockets rt = [] \<and> timers rt = []
      else live_sockets rt + length (timers rt) = 1)"

text \<open>
  The connection lost \<open>n\<close> times in a row: socket \<open>k\<close> closes and the timer it set
  fires, for \<open>k\<close> from 0 up to \<open>n - 1\<close>.
\<close>

definition retries :: "nat \<Rightarrow> event list" where
  "retries n = concat (map (\<lambda>k. [SocketClose k, TimerFire]) [0..<n])"

section \<open>Example inputs\<close>

text \<open>Frames and responses as the server sends them, used to run the handlers.\<close>

definition post_frame :: "int \<Rightarrow> frame" where
  "post_frame k =
     Parses (JObj [(''type'', JStr ''new_post''), (''data'', JObj [(''post_id'', JNum k)])])"

definition counts :: "int \<Rightarrow> int \<Rightarrow> int \<Rightarrow> int \<Rightarrow> jsval" where
  "counts p n u t =
     JObj [(''positive'', JNum p), (''negative'', JNum n), (''neutral'', JNum u),
           (''total'', JNum t)]"

definition metrics_frame :: "jsval \<Rightarrow> frame" where
  "metrics_frame d =
     Parses (JObj [(''type'', JStr ''metrics_update''),
                   (''data'', JObj [(''last_24_hours'', d)])])"

definition heartbeat_frame :: frame where
  "heartbeat_frame = Parses (JObj [(''type'', JStr ''heartbeat'')])"

definition dist_body :: "int \<Rightarrow> int \<Rightarrow> int \<Rightarrow> int \<Rightarrow> jsval" where
  "dist_body p n u t =
     JObj [(''total'', JNum t),
           (''distribution'',
            JObj [(''positive'', JNum p), (''negative'', JNum n), (''neutral'', JNum u)])]"

definition trend_point :: "int \<Rightarrow> jsobj" where
  "trend_point h =
     [(''timestamp'', JNum h), (''positive_count'', JNum 1), (''negative_count'', JNum 0),
      (''neutral_count'', JNum 0)]"

section \<open>Facts about the handlers\<close>

lemma onmessage_unparseable: "onmessage Unparseable now v = (Threw SyntaxError, v)"
  by (simp add: onmessage_def)

lemma onmessage_new_post:
  "new_post_of f = Some d \<Longrightarrow>
   onmessage f now v = (Completed, v\<lparr>lastUpdate := now, recentPosts := take 50 (d # recentPosts v)\<rparr>)"
  by (cases f) (auto simp: new_post_of_def onmessage_def Let_def split: sum.splits if_splits)

lemma onmessage_metrics:
  "metrics_update_of f = Some d \<Longrightarrow> metrics (snd (onmessage f now v)) = d"
  by (cases f) (auto simp: metrics_update_of_def onmessage_def Let_def split: sum.splits if_splits)

lemma onmessage_trend: "trendData (snd (onmessage f now v)) = trendData v"
  by (cases f) (auto simp: onmessage_def Let_def split: sum.splits if_splits)

lemma onmessage_status: "connectionStatus (snd (onmessage f now v)) = connectionStatus v"
  by (cases f) (auto simp: onmessage_def Let_def split: sum.splits if_splits)

lemma onmessage_feed_other:
  "new_post_of f = None \<Longrightarrow> recentPosts (snd (onmessage f now v)) = recentPosts v"
  by (cases f) (auto simp: new_post_of_def onmessage_def Let_def split: sum.splits if_splits)

lemma onmessage_metrics_other:
  "metrics_update_of f = None \<Longrightarrow> metrics (snd (onmessage f now v)) = metrics v"
  by (cases f) (auto simp: metrics_update_of_def onmessage_def Let_def split: sum.splits if_splits)

lemma onmessage_lastUpdate:
  "lastUpdate (snd (onmessage f now v)) = (case JSON_parse f of Inl e \<Rightarrow> lastUpdate v | Inr m \<Rightarrow> now)"
  by (cases f) (auto simp: onmessage_def Let_def split: sum.splits if_splits)

lemma onmessage_feed_length:
  "length (recentPosts v) \<le> 50 \<Longrightarrow> length (recentPosts (snd (onmessage f now v))) \<le> 50"
  by (cases f) (auto simp: onmessage_def Let_def split: sum.splits if_splits)

lemma take_append_take: "take n (xs @ take n ys) = take n (xs @ ys)"
  by (simp add: min_def)

lemma receive_all_new_posts:
  "map (\<lambda>x. new_post_of (fst x)) fs = map Some ps \<Longrightarrow> length (recentPosts v) \<le> 50 \<Longrightarrow>
   recentPosts (receive_all fs v) = take 50 (rev ps @ recentPosts v)"
proof (induction fs arbitrary: ps v)
  case Nil
  then show ?case by simp
next
  case (Cons a fs)
  obtain f now where a: "a = (f, now)" by (cases a)
  from Cons.prems a obtain p ps' where ps: "ps = p # ps'" and p: "new_post_of f = Some p"
    and rest: "map (\<lambda>x. new_post_of (fst x)) fs = map Some ps'"
    by (cases ps) auto
  let ?v = "snd (onmessage f now v)"
  have len: "length (recentPosts ?v) \<le> 50"
    by (rule onmessage_feed_length) (rule Cons.prems)
  have "recentPosts (receive_all (a # fs) v)
        = take 50 (rev ps' @ take 50 (p # recentPosts v))"
    using Cons.IH [OF rest len] a by (simp add: onmessage_new_post [OF p])
  also have "\<dots> = take 50 (rev ps' @ p # recentPosts v)"
    using take_append_take [of 50 "rev ps'" "p # recentPosts v"] by simp
  finally show ?case by (simp add: ps)
qed

lemma receive_all_new_posts_nonempty:
  assumes "map (\<lambda>x. new_post_of (fst x)) fs = map Some ps" and "fs \<noteq> []"
  shows "recentPosts (receive_all fs v) = take 50 (rev ps @ recentPosts v)"
proof -
  from assms(2) obtain f now fs' where fs: "fs = (f, now) # fs'"
    by (cases fs) auto
  with assms(1) obtain p ps' where ps: "ps = p # ps'" and p: "new_post_of f = Some p"
    and rest: "map (\<lambda>x. new_post_of (fst x)) fs' = map Some ps'"
    by (cases ps) auto
  let ?v = "snd (onmessage f now v)"
  have feed: "recentPosts ?v = take 50 (p # recentPosts v)"
    by (simp add: onmessage_new_post [OF p])
  then have "length (recentPosts ?v) \<le> 50" by simp
  from receive_all_new_posts [OF rest this]
  have "recentPosts (receive_all fs v) = take 50 (rev ps' @ take 50 (p # recentPosts v))"
    by (simp add: fs feed)
  also have "\<dots> = take 50 (rev ps' @ p # recentPosts v)"
    by (rule take_append_take)
  finally show ?thesis by (simp add: ps)
qed

lemma two_new_posts:
  assumes "new_post_of f1 = Some p1" and "new_post_of f2 = Some p2"
  shows "recentPosts (receive_all [(f1, t1), (f2, t2)] v) = p2 # p1 # take 48 (recentPosts v)"
proof -
  have "take 50 (p2 # take 50 (p1 # recentPosts v)) = p2 # p1 # take 48 (recentPosts v)"
    by (simp add: take_Cons')
  then show ?thesis
    by (simp add: onmessage_new_post [OF assms(1)] onmessage_new_post [OF assms(2)])
qed

lemma sixty_new_posts:
  assumes "map (\<lambda>x. new_post_of (fst x)) fs = map Some ps" and "recentPosts v = []"
    and "length ps = 60"
  shows "recentPosts (receive_all fs v) = rev (drop 10 ps)"
proof -
  have "recentPosts (receive_all fs v) = take 50 (rev ps)"
    using receive_all_new_posts [OF assms(1), of v] assms(2) by simp
  also have "\<dots> = rev (drop 10 ps)"
    using assms(3) by (simp add: take_rev)
  finally show ?thesis .
qed


lemma view_connectWebSocket [simp]: "view (connectWebSocket rt) = view rt"
  by (simp add: connectWebSocket_def)

lemma view_fetch_start [simp]: "view (fetch_start rt) = view rt"
  by (simp add: fetch_start_def)

lemma view_catch_fetch [simp]: "view (catch_fetch c rt) = view rt"
  by (simp add: catch_fetch_def)

lemma view_cleanup [simp]: "view (cleanup rt) = view rt"
  by (simp add: cleanup_def socket_close_def split: option.splits)

lemma view_deliver [simp]: "view (deliver f now rt) = snd (onmessage f now (view rt))"
  by (cases "onmessage f now (view rt)") (simp add: deliver_def split: outcome.splits)

lemma feed_on_dist: "recentPosts (view (on_dist r rt)) = recentPosts (view rt)"
  by (simp add: on_dist_def split: loader.splits response.splits sum.splits)

lemma feed_on_trend: "recentPosts (view (on_trend r rt)) = recentPosts (view rt)"
  by (simp add: on_trend_def split: loader.splits response.splits)

lemma feed_on_posts:
  "at_most_50_posts (PostsResponse r) \<Longrightarrow> length (recentPosts (view rt)) \<le> 50 \<Longrightarrow>
   length (recentPosts (view (on_posts r rt))) \<le> 50"
  by (auto simp: on_posts_def Let_def split: loader.splits response.splits sum.splits)

lemma step_feed_bound:
  assumes "step e rt = Some rt'" and "at_most_50_posts e"
    and "length (recentPosts (view rt)) \<le> 50"
  shows "length (recentPosts (view rt')) \<le> 50"
proof (cases e)
  case (PostsResponse r)
  with assms show ?thesis
    by (auto split: if_splits intro: feed_on_posts)
next
  case (SocketMessage i f now)
  with assms show ?thesis
    by (auto split: if_splits intro: onmessage_feed_length)
next
  case TimerFire
  with assms show ?thesis by (auto split: list.splits)
qed (use assms in \<open>auto simp: feed_on_dist feed_on_trend onopen_def onclose_def split: if_splits\<close>)

lemma run_feed_bound:
  "run evs rt = Some rt' \<Longrightarrow> list_all at_most_50_posts evs \<Longrightarrow>
   length (recentPosts (view rt)) \<le> 50 \<Longrightarrow> length (recentPosts (view rt')) \<le> 50"
proof (induction evs arbitrary: rt)
  case Nil
  then show ?case by simp
next
  case (Cons e evs)
  from Cons.prems(1) obtain rt1 where s: "step e rt = Some rt1" and r: "run evs rt1 = Some rt'"
    by (auto split: option.splits)
  from Cons.prems have "length (recentPosts (view rt1)) \<le> 50"
    using step_feed_bound [OF s] by simp
  with Cons.IH [OF r] Cons.prems show ?case by simp
qed


lemma count_filter_close:
  "i < length xs \<Longrightarrow> xs ! i \<noteq> CLOSED \<Longrightarrow>
   Suc (length (filter (\<lambda>s. s \<noteq> CLOSED) (xs[i := CLOSED]))) = length (filter (\<lambda>s. s \<noteq> CLOSED) xs)"
proof (induction xs arbitrary: i)
  case Nil
  then show ?case by simp
next
  case (Cons x xs)
  then show ?case by (cases i) auto
qed

lemma count_filter_keep:
  "i < length xs \<Longrightarrow> xs ! i \<noteq> CLOSED \<Longrightarrow> y \<noteq> CLOSED \<Longrightarrow>
   length (filter (\<lambda>s. s \<noteq> CLOSED) (xs[i := y])) = length (filter (\<lambda>s. s \<noteq> CLOSED) xs)"
proof (induction xs arbitrary: i)
  case Nil
  then show ?case by simp
next
  case (Cons x xs)
  then show ?case by (cases i) auto
qed

lemma conn_on_dist [simp]:
  "sockets (on_dist r rt) = sockets rt" "timers (on_dist r rt) = timers rt"
  "phase (on_dist r rt) = phase rt"
  by (simp_all add: on_dist_def catch_fetch_def split: loader.splits response.splits sum.splits)

lemma conn_on_trend [simp]:
  "sockets (on_trend r rt) = sockets rt" "timers (on_trend r rt) = timers rt"
  "phase (on_trend r rt) = phase rt"
  by (simp_all add: on_trend_def catch_fetch_def split: loader.splits response.splits)

lemma conn_on_posts [simp]:
  "sockets (on_posts r rt) = sockets rt" "timers (on_posts r rt) = timers rt"
  "phase (on_posts r rt) = phase rt"
  by (simp_all add: on_posts_def catch_fetch_def Let_def
      split: loader.splits response.splits sum.splits)

lemma conn_deliver [simp]:
  "sockets (deliver f now rt) = sockets rt" "timers (deliver f now rt) = timers rt"
  "phase (deliver f now rt) = phase rt"
  by (simp_all add: deliver_def split: prod.splits outcome.splits)

lemma step_one_connection:
  assumes "step e rt = Some rt'" and "one_connection rt"
  shows "one_connection rt'"
proof (cases e)
  case Mount
  with assms show ?thesis
    by (auto simp: one_connection_def live_sockets_def connectWebSocket_def fetch_start_def
        split: if_splits)
next
  case (SocketOpen i)
  with assms show ?thesis
    by (auto simp: one_connection_def live_sockets_def onopen_def count_filter_keep
        split: if_splits)
next
  case (SocketClose i)
  with assms(1) have i: "i < length (sockets rt)" "sockets rt ! i \<noteq> CLOSED"
    and rt': "rt' = onclose (rt\<lparr>sockets := (sockets rt)[i := CLOSED]\<rparr>)"
    by (auto split: if_splits)
  from i assms(2) have mounted: "phase rt \<noteq> Created"
    and one: "live_sockets rt + length (timers rt) = 1"
    by (auto simp: one_connection_def split: if_splits)
  have "Suc (live_sockets rt') = live_sockets rt"
    using count_filter_close [OF i] by (simp add: rt' live_sockets_def onclose_def)
  moreover have "length (timers rt') = Suc (length (timers rt))"
    by (simp add: rt' onclose_def)
  moreover have "phase rt' = phase rt"
    by (simp add: rt' onclose_def)
  ultimately have "live_sockets rt' + length (timers rt') = 1 \<and> phase rt' \<noteq> Created"
    using mounted one by arith
  then show ?thesis
    unfolding one_connection_def by simp
next
  case TimerFire
  with assms show ?thesis
    by (auto simp: one_connection_def live_sockets_def connectWebSocket_def
        split: list.splits if_splits)
next
  case Unmount
  with assms show ?thesis
    by (auto simp: one_connection_def live_sockets_def cleanup_def socket_close_def
        count_filter_keep split: if_splits option.splits)
qed (use assms in \<open>auto simp: one_connection_def live_sockets_def split: if_splits\<close>)

lemma step_timers_fixed:
  assumes "step e rt = Some rt'" and "set (timers rt) \<subseteq> {3000}"
  shows "set (timers rt') \<subseteq> {3000}"
proof (cases e)
  case TimerFire
  with assms show ?thesis
    by (auto simp: connectWebSocket_def split: list.splits)
next
  case Unmount
  with assms show ?thesis
    by (auto simp: cleanup_def socket_close_def split: if_splits option.splits)
qed (use assms in \<open>auto simp: connectWebSocket_def fetch_start_def onopen_def onclose_def
      split: if_splits\<close>)

lemma run_one_connection:
  "run evs rt = Some rt' \<Longrightarrow> one_connection rt \<Longrightarrow> set (timers rt) \<subseteq> {3000} \<Longrightarrow>
   one_connection rt' \<and> set (timers rt') \<subseteq> {3000}"
proof (induction evs arbitrary: rt)
  case Nil
  then show ?case by simp
next
  case (Cons e evs)
  from Cons.prems(1) obtain rt1 where s: "step e rt = Some rt1" and r: "run evs rt1 = Some rt'"
    by (auto split: option.splits)
  show ?case
    using Cons.IH [OF r step_one_connection [OF s Cons.prems(2)]
        step_timers_fixed [OF s Cons.prems(3)]] .
qed

lemma step_never_connecting:
  assumes "step e rt = Some rt'" and "connectionStatus (view rt') = connecting"
  shows "connectionStatus (view rt) = connecting"
proof (cases e)
  case (DistResponse r)
  with assms show ?thesis
    by (auto simp: on_dist_def split: if_splits loader.splits response.splits sum.splits)
next
  case (TrendResponse r)
  with assms show ?thesis
    by (auto simp: on_trend_def split: if_splits loader.splits response.splits)
next
  case (PostsResponse r)
  with assms show ?thesis
    by (auto simp: on_posts_def Let_def split: if_splits loader.splits response.splits sum.splits)
next
  case (SocketMessage i f now)
  with assms show ?thesis
    by (auto simp: onmessage_status split: if_splits)
next
  case TimerFire
  with assms show ?thesis by (auto split: list.splits)
qed (use assms in \<open>auto simp: onopen_def onclose_def split: if_splits\<close>)


lemma metrics_on_dist: "metrics (view (on_dist r rt)) = metrics (view rt)"
  by (simp add: on_dist_def split: loader.splits response.splits sum.splits)

lemma metrics_on_trend: "metrics (view (on_trend r rt)) = metrics (view rt)"
  by (simp add: on_trend_def split: loader.splits response.splits)

lemma loader_on_dist:
  "consistent_payload (DistResponse r) \<Longrightarrow> loader_ok (loader rt) \<Longrightarrow>
   loader_ok (loader (on_dist r rt))"
  by (auto simp: on_dist_def catch_fetch_def loader_ok_def dist_body_consistent_def
      split: loader.splits response.splits sum.splits)

lemma loader_on_trend: "loader_ok (loader rt) \<Longrightarrow> loader_ok (loader (on_trend r rt))"
  by (auto simp: on_trend_def catch_fetch_def loader_ok_def
      split: loader.splits response.splits)

lemma loader_on_posts: "loader_ok (loader rt) \<Longrightarrow> loader_ok (loader (on_posts r rt))"
  by (auto simp: on_posts_def catch_fetch_def loader_ok_def Let_def
      split: loader.splits response.splits sum.splits)

lemma snapshot_metrics_consistent:
  assumes "snapshot_consistent body dist"
    and "get_prop body ''total'' = Inr t" and "get_prop dist ''positive'' = Inr p"
    and "get_prop dist ''negative'' = Inr n" and "get_prop dist ''neutral'' = Inr u"
  shows "metrics_consistent
           (JObj [(''total'', t), (''positive'', p), (''negative'', n), (''neutral'', u)])"
  using assms
  by (auto simp: snapshot_consistent_def metrics_consistent_def count_of_def
      split: option.splits sum.splits jsval.splits)

lemma metrics_on_posts:
  "loader_ok (loader rt) \<Longrightarrow> metrics_consistent (metrics (view rt)) \<Longrightarrow>
   metrics_consistent (metrics (view (on_posts r rt)))"
  by (auto simp: on_posts_def Let_def loader_ok_def catch_fetch_def
      intro: snapshot_metrics_consistent
      split: loader.splits response.splits sum.splits)

lemma loader_deliver [simp]: "loader (deliver f now rt) = loader rt"
  by (simp add: deliver_def split: prod.splits outcome.splits)

lemma metrics_deliver:
  "consistent_payload (SocketMessage i f now) \<Longrightarrow> metrics_consistent (metrics (view rt)) \<Longrightarrow>
   metrics_consistent (metrics (view (deliver f now rt)))"
  by (cases "metrics_update_of f") (simp_all add: onmessage_metrics onmessage_metrics_other)

lemma step_metrics:
  assumes "step e rt = Some rt'" and "consistent_payload e"
    and "metrics_consistent (metrics (view rt))" and "loader_ok (loader rt)"
  shows "metrics_consistent (metrics (view rt')) \<and> loader_ok (loader rt')"
proof (cases e)
  case Mount
  with assms show ?thesis
    by (auto simp: connectWebSocket_def fetch_start_def loader_ok_def split: if_splits)
next
  case (DistResponse r)
  with assms show ?thesis
    by (auto simp: metrics_on_dist intro: loader_on_dist split: if_splits)
next
  case (TrendResponse r)
  with assms show ?thesis
    by (auto simp: metrics_on_trend intro: loader_on_trend split: if_splits)
next
  case (PostsResponse r)
  with assms show ?thesis
    by (auto intro: metrics_on_posts loader_on_posts split: if_splits)
next
  case (SocketMessage i f now)
  with assms metrics_deliver [of i f now rt] show ?thesis
    by (auto split: if_splits)
next
  case TimerFire
  with assms show ?thesis
    by (auto simp: connectWebSocket_def split: list.splits)
next
  case Unmount
  with assms show ?thesis
    by (auto simp: cleanup_def socket_close_def split: if_splits option.splits)
qed (use assms in \<open>auto simp: onopen_def onclose_def split: if_splits\<close>)

lemma run_metrics:
  "run evs rt = Some rt' \<Longrightarrow> list_all consistent_payload evs \<Longrightarrow>
   metrics_consistent (metrics (view rt)) \<Longrightarrow> loader_ok (loader rt) \<Longrightarrow>
   metrics_consistent (metrics (view rt')) \<and> loader_ok (loader rt')"
proof (induction evs arbitrary: rt)
  case Nil
  then show ?case by simp
next
  case (Cons e evs)
  from Cons.prems(1) obtain rt1 where s: "step e rt = Some rt1" and r: "run evs rt1 = Some rt'"
    by (auto split: option.splits)
  from Cons.prems have "metrics_consistent (metrics (view rt1)) \<and> loader_ok (loader rt1)"
    using step_metrics [OF s] by simp
  with Cons.IH [OF r] Cons.prems show ?case by simp
qed

lemma initial_consistent:
  "metrics_consistent (metrics (view (initial_runtime now)))"
  "loader_ok (loader (initial_runtime now))"
  by (simp_all add: initial_runtime_def initial_dashboard_def metrics0_def
      metrics_consistent_def count_of_def loader_ok_def)

lemma initial_one_connection:
  "one_connection (initial_runtime now)" "set (timers (initial_runtime now)) \<subseteq> {3000}"
  by (simp_all add: initial_runtime_def one_connection_def)

section \<open>Unfolding the model on concrete inputs\<close>

lemmas handler_defs = onmessage_def new_post_of_def metrics_update_of_def Let_def
lemmas example_defs = post_frame_def counts_def metrics_frame_def heartbeat_frame_def
  dist_body_def trend_point_def
lemmas runtime_defs = initial_runtime_def initial_dashboard_def metrics0_def
  connectWebSocket_def fetch_start_def on_dist_def on_trend_def on_posts_def catch_fetch_def
  onopen_def onclose_def cleanup_def socket_close_def deliver_def is_await_trend_def
  is_await_posts_def with_timestamp_def

section \<open>Facts about the example inputs\<close>

lemma new_post_of_post_frame: "new_post_of (post_frame k) = Some (JObj [(''post_id'', JNum k)])"
  by (simp add: new_post_of_def post_frame_def)

lemma metrics_update_of_metrics_frame: "metrics_update_of (metrics_frame d) = Some d"
  by (simp add: metrics_update_of_def metrics_frame_def)

lemma metrics_update_not_new_post: "metrics_update_of f = Some d \<Longrightarrow> new_post_of f = None"
  by (cases f) (auto simp: metrics_update_of_def new_post_of_def split: if_splits sum.splits)

lemma run_append:
  "run (xs @ ys) rt = (case run xs rt of None \<Rightarrow> None | Some rt' \<Rightarrow> run ys rt')"
  by (induction xs arbitrary: rt) (auto split: option.splits)

section \<open>The feed\<close>

text \<open>
  C1. Start from the initial state and let any sequence of events happen (mount, the three
  snapshot responses, socket events, timers, unmount). If every posts response carries at
  most 50 posts, the feed of the resulting state has at most 50 entries. A frame taken as a
  \<^verbatim>\<open>new_post\<close> puts its post in front of the feed and keeps the first 50 entries.
\<close>

theorem C1_feed_at_most_50:
  assumes "run evs (initial_runtime now) = Some rt" and "list_all at_most_50_posts evs"
  shows "length (recentPosts (view rt)) \<le> 50 \<and>
         (\<forall>f d t v. new_post_of f = Some d \<longrightarrow>
            recentPosts (snd (onmessage f t v)) = take 50 (d # recentPosts v))"
proof -
  have "length (recentPosts (view (initial_runtime now))) \<le> 50"
    by (simp add: initial_runtime_def initial_dashboard_def)
  with assms have "length (recentPosts (view rt)) \<le> 50"
    by (rule run_feed_bound)
  moreover have "\<forall>f d t v. new_post_of f = Some d \<longrightarrow>
      recentPosts (snd (onmessage f t v)) = take 50 (d # recentPosts v)"
    by (simp add: onmessage_new_post)
  ultimately show ?thesis by simp
qed

text \<open>
  A run with a snapshot of two posts followed by one \<^verbatim>\<open>new_post\<close> frame: the feed has
  the new post in front of the two loaded ones.
\<close>

theorem C1_feed_at_most_50_witness:
  "list_all at_most_50_posts
     [Mount, DistResponse (Resolved (dist_body 10 5 5 20)),
      TrendResponse (Resolved [trend_point 1]),
      PostsResponse (Resolved [JObj [(''post_id'', JNum 1)], JObj [(''post_id'', JNum 2)]]),
      SocketOpen 0, SocketMessage 0 (post_frame 3) 5] \<and>
   map_option (recentPosts \<circ> view)
     (run [Mount, DistResponse (Resolved (dist_body 10 5 5 20)),
           TrendResponse (Resolved [trend_point 1]),
           PostsResponse (Resolved [JObj [(''post_id'', JNum 1)], JObj [(''post_id'', JNum 2)]]),
           SocketOpen 0, SocketMessage 0 (post_frame 3) 5] (initial_runtime 0))
     = Some [JObj [(''post_id'', JNum 3)], JObj [(''post_id'', JNum 1)],
             JObj [(''post_id'', JNum 2)]] \<and>
   length (recentPosts (view (the
     (run [Mount, DistResponse (Resolved (dist_body 10 5 5 20)),
           TrendResponse (Resolved [trend_point 1]),
           PostsResponse (Resolved [JObj [(''post_id'', JNum 1)], JObj [(''post_id'', JNum 2)]]),
           SocketOpen 0, SocketMessage 0 (post_frame 3) 5] (initial_runtime 0))))) \<le> 50"
proof -
  let ?evs = "[Mount, DistResponse (Resolved (dist_body 10 5 5 20)),
      TrendResponse (Resolved [trend_point 1]),
      PostsResponse (Resolved [JObj [(''post_id'', JNum 1)], JObj [(''post_id'', JNum 2)]]),
      SocketOpen 0, SocketMessage 0 (post_frame 3) 5]"
  have ok: "list_all at_most_50_posts ?evs" by simp
  have feed: "map_option (recentPosts \<circ> view) (run ?evs (initial_runtime 0))
      = Some [JObj [(''post_id'', JNum 3)], JObj [(''post_id'', JNum 1)],
              JObj [(''post_id'', JNum 2)]]"
    by (simp add: handler_defs example_defs runtime_defs)
  then obtain rt where r: "run ?evs (initial_runtime 0) = Some rt" by auto
  from C1_feed_at_most_50 [OF r ok] have "length (recentPosts (view rt)) \<le> 50" by simp
  with ok feed r show ?thesis by simp
qed

text \<open>
  C2. When the frames \<open>fs\<close> are all \<^verbatim>\<open>new_post\<close> frames carrying the posts \<open>ps\<close> in
  arrival order, the feed afterwards is the first 50 entries of the posts in reverse arrival
  order followed by the old feed. So of two frames the later one's post is in front of the
  earlier one's, and 60 frames on an empty feed leave exactly the last 50 posts, newest
  first, the first 10 gone.
\<close>

theorem C2_newest_first:
  assumes "map (\<lambda>x. new_post_of (fst x)) fs = map Some ps"
  shows "(fs \<noteq> [] \<longrightarrow> recentPosts (receive_all fs v) = take 50 (rev ps @ recentPosts v)) \<and>
         (\<forall>p1 p2. ps = [p1, p2] \<longrightarrow>
            recentPosts (receive_all fs v) = p2 # p1 # take 48 (recentPosts v)) \<and>
         (length ps = 60 \<and> recentPosts v = [] \<longrightarrow>
            recentPosts (receive_all fs v) = rev (drop 10 ps))"
proof -
  have general: "fs \<noteq> [] \<longrightarrow> recentPosts (receive_all fs v) = take 50 (rev ps @ recentPosts v)"
    using receive_all_new_posts_nonempty [OF assms] by blast
  have "length fs = length ps"
    using assms by (metis length_map)
  then have "\<forall>p1 p2. ps = [p1, p2] \<longrightarrow> fs \<noteq> []" by auto
  with general have pair: "\<forall>p1 p2. ps = [p1, p2] \<longrightarrow>
      recentPosts (receive_all fs v) = p2 # p1 # take 48 (recentPosts v)"
    by (auto simp: take_Cons')
  have sixty: "length ps = 60 \<and> recentPosts v = [] \<longrightarrow>
      recentPosts (receive_all fs v) = rev (drop 10 ps)"
    using sixty_new_posts [OF assms] by blast
  from general pair sixty show ?thesis by blast
qed

text \<open>Sixty numbered posts on the empty feed leave posts 59 down to 10; two leave 2, 1.\<close>

theorem C2_newest_first_witness:
  "map (\<lambda>x. new_post_of (fst x)) (map (\<lambda>k. (post_frame (int k), k)) [0..<60])
     = map Some (map (\<lambda>k. JObj [(''post_id'', JNum (int k))]) [0..<60]) \<and>
   recentPosts (initial_dashboard 0) = [] \<and>
   recentPosts (receive_all (map (\<lambda>k. (post_frame (int k), k)) [0..<60]) (initial_dashboard 0))
     = map (\<lambda>k. JObj [(''post_id'', JNum (int k))]) (rev [10..<60]) \<and>
   recentPosts (receive_all [(post_frame 1, 1), (post_frame 2, 2)] (initial_dashboard 0))
     = [JObj [(''post_id'', JNum 2)], JObj [(''post_id'', JNum 1)]]"
proof -
  let ?fs = "map (\<lambda>k. (post_frame (int k), k)) [0..<60]"
  let ?ps = "map (\<lambda>k. JObj [(''post_id'', JNum (int k))]) [0..<60]"
  have h: "map (\<lambda>x. new_post_of (fst x)) ?fs = map Some ?ps"
    by (simp add: new_post_of_post_frame comp_def)
  have e: "recentPosts (initial_dashboard 0) = []"
    by (simp add: initial_dashboard_def)
  have n: "length ?ps = 60" by simp
  from C2_newest_first [OF h]
  have "length ?ps = 60 \<and> recentPosts (initial_dashboard 0) = [] \<longrightarrow>
      recentPosts (receive_all ?fs (initial_dashboard 0)) = rev (drop 10 ?ps)"
    by blast
  with n e have "recentPosts (receive_all ?fs (initial_dashboard 0)) = rev (drop 10 ?ps)"
    by blast
  also have "\<dots> = map (\<lambda>k. JObj [(''post_id'', JNum (int k))]) (rev [10..<60])"
    by (simp add: drop_map rev_map)
  finally have sixty: "recentPosts (receive_all ?fs (initial_dashboard 0))
      = map (\<lambda>k. JObj [(''post_id'', JNum (int k))]) (rev [10..<60])" .
  have h2: "map (\<lambda>x. new_post_of (fst x)) [(post_frame 1, 1::nat), (post_frame 2, 2)]
      = map Some [JObj [(''post_id'', JNum 1)], JObj [(''post_id'', JNum 2)]]"
    by (simp add: new_post_of_post_frame)
  from C2_newest_first [OF h2, of "initial_dashboard 0"] e
  have two: "recentPosts (receive_all [(post_frame 1, 1), (post_frame 2, 2)] (initial_dashboard 0))
      = [JObj [(''post_id'', JNum 2)], JObj [(''post_id'', JNum 1)]]"
    by simp
  from h e sixty two show ?thesis by blast
qed

section \<open>The metrics\<close>

text \<open>
  C3. A frame taken as a \<^verbatim>\<open>metrics_update\<close> sets \<open>metrics\<close> to the value it carries
  under \<^verbatim>\<open>data.last_24_hours\<close>, whatever the metrics were before: nothing is added to
  the old counts.
\<close>

theorem C3_metrics_replaced:
  assumes "metrics_update_of f = Some d"
  shows "metrics (snd (onmessage f now v)) = d"
  using assms by (rule onmessage_metrics)

text \<open>
  The snapshot gives total 20; an update carrying 12, 5, 5 and total 22 then gives total 22.
\<close>

theorem C3_metrics_replaced_witness:
  "metrics_update_of (metrics_frame (counts 12 5 5 22)) = Some (counts 12 5 5 22) \<and>
   count_of (metrics (view (fetchData (Resolved (dist_body 10 5 5 20)) (Resolved [])
       (Resolved []) (initial_runtime 0)))) ''total'' = Some 20 \<and>
   count_of (metrics (snd (onmessage (metrics_frame (counts 12 5 5 22)) 7
       (view (fetchData (Resolved (dist_body 10 5 5 20)) (Resolved []) (Resolved [])
          (initial_runtime 0)))))) ''total'' = Some 22"
proof -
  have h: "metrics_update_of (metrics_frame (counts 12 5 5 22)) = Some (counts 12 5 5 22)"
    by (rule metrics_update_of_metrics_frame)
  have before: "count_of (metrics (view (fetchData (Resolved (dist_body 10 5 5 20)) (Resolved [])
       (Resolved []) (initial_runtime 0)))) ''total'' = Some 20"
    by (simp add: fetchData_def runtime_defs example_defs count_of_def Let_def)
  have "count_of (counts 12 5 5 22) ''total'' = Some 22"
    by (simp add: count_of_def counts_def)
  with C3_metrics_replaced [OF h] h before show ?thesis by simp
qed

text \<open>
  C4. Start from the initial state and let any sequence of events happen. If the counts in
  every distribution response and in every \<^verbatim>\<open>metrics_update\<close> payload add up to the
  total they come with, the counts of \<open>metrics\<close> add up to its total in the resulting
  state: the metrics are the initial zeros, one snapshot's counts or one update's payload.
\<close>

theorem C4_counts_add_up:
  assumes "run evs (initial_runtime now) = Some rt" and "list_all consistent_payload evs"
  shows "metrics_consistent (metrics (view rt))"
  using run_metrics [OF assms initial_consistent] by simp

text \<open>
  The snapshot with 10 + 5 + 5 = 20 and then an update with 12 + 5 + 5 = 22, the update
  arriving before the posts response.
\<close>

theorem C4_counts_add_up_witness:
  "list_all consistent_payload
     [Mount, SocketOpen 0, DistResponse (Resolved (dist_body 10 5 5 20)),
      TrendResponse (Resolved [trend_point 1]),
      SocketMessage 0 (metrics_frame (counts 12 5 5 22)) 7,
      PostsResponse (Resolved [JObj [(''post_id'', JNum 1)]])] \<and>
   map_option (metrics \<circ> view)
     (run [Mount, SocketOpen 0, DistResponse (Resolved (dist_body 10 5 5 20)),
           TrendResponse (Resolved [trend_point 1]),
           SocketMessage 0 (metrics_frame (counts 12 5 5 22)) 7,
           PostsResponse (Resolved [JObj [(''post_id'', JNum 1)]])] (initial_runtime 0))
     = Some (JObj [(''total'', JNum 20), (''positive'', JNum 10), (''negative'', JNum 5),
                   (''neutral'', JNum 5)]) \<and>
   metrics_consistent (metrics (view (the
     (run [Mount, SocketOpen 0, DistResponse (Resolved (dist_body 10 5 5 20)),
           TrendResponse (Resolved [trend_point 1]),
           SocketMessage 0 (metrics_frame (counts 12 5 5 22)) 7,
           PostsResponse (Resolved [JObj [(''post_id'', JNum 1)]])] (initial_runtime 0)))))"
proof -
  let ?evs = "[Mount, SocketOpen 0, DistResponse (Resolved (dist_body 10 5 5 20)),
      TrendResponse (Resolved [trend_point 1]),
      SocketMessage 0 (metrics_frame (counts 12 5 5 22)) 7,
      PostsResponse (Resolved [JObj [(''post_id'', JNum 1)]])]"
  have ok: "list_all consistent_payload ?evs"
    by (simp add: metrics_update_of_metrics_frame)
      (simp add: example_defs dist_body_consistent_def snapshot_consistent_def
        metrics_consistent_def count_of_def)
  have m: "map_option (metrics \<circ> view) (run ?evs (initial_runtime 0))
      = Some (JObj [(''total'', JNum 20), (''positive'', JNum 10), (''negative'', JNum 5),
                    (''neutral'', JNum 5)])"
    by (simp add: handler_defs example_defs runtime_defs)
  then obtain rt where r: "run ?evs (initial_runtime 0) = Some rt" by auto
  from C4_counts_add_up [OF r ok] have "metrics_consistent (metrics (view rt))" .
  with ok m r show ?thesis by simp
qed

section \<open>The connection\<close>

lemma retries_Suc: "retries (Suc n) = retries n @ [SocketClose n, TimerFire]"
  by (simp add: retries_def)

lemma run_retries:
  "\<exists>rt. run (Mount # retries n) (initial_runtime now) = Some rt \<and>
        sockets rt = replicate n CLOSED @ [CONNECTING] \<and> timers rt = []"
proof (induction n)
  case 0
  show ?case
    by (simp add: retries_def initial_runtime_def connectWebSocket_def fetch_start_def)
next
  case (Suc n)
  then obtain rt where r: "run (Mount # retries n) (initial_runtime now) = Some rt"
    and s: "sockets rt = replicate n CLOSED @ [CONNECTING]" and t: "timers rt = []"
    by blast
  have upd: "(replicate n CLOSED @ [CONNECTING])[n := CLOSED] = replicate (Suc n) CLOSED"
    using list_update_length [of "replicate n CLOSED" CONNECTING "[]" CLOSED]
    by (simp add: replicate_append_same)
  have nth: "(replicate n CLOSED @ [CONNECTING]) ! n = CONNECTING"
    using nth_append_length [of "replicate n CLOSED" CONNECTING "[]"] by simp
  have "run [SocketClose n, TimerFire] rt
        = Some (connectWebSocket
                  ((onclose (rt\<lparr>sockets := (sockets rt)[n := CLOSED]\<rparr>))\<lparr>timers := []\<rparr>))"
    using nth by (simp add: s t onclose_def)
  then have "run (Mount # retries (Suc n)) (initial_runtime now)
        = Some (connectWebSocket
                  ((onclose (rt\<lparr>sockets := (sockets rt)[n := CLOSED]\<rparr>))\<lparr>timers := []\<rparr>))"
    using r run_append [of "Mount # retries n" "[SocketClose n, TimerFire]"]
    by (simp add: retries_Suc)
  moreover have "sockets (connectWebSocket
                  ((onclose (rt\<lparr>sockets := (sockets rt)[n := CLOSED]\<rparr>))\<lparr>timers := []\<rparr>))
        = replicate (Suc n) CLOSED @ [CONNECTING]"
    using upd by (simp add: connectWebSocket_def onclose_def s)
  moreover have "timers (connectWebSocket
                  ((onclose (rt\<lparr>sockets := (sockets rt)[n := CLOSED]\<rparr>))\<lparr>timers := []\<rparr>)) = []"
    by (simp add: connectWebSocket_def)
  ultimately show ?case by blast
qed

lemma close_after_retries:
  "\<exists>rt. run (Mount # retries n @ [SocketClose n]) (initial_runtime now) = Some rt \<and>
        timers rt = [3000] \<and> connectionStatus (view rt) = disconnected"
proof -
  from run_retries [of n now] obtain rt
    where r: "run (Mount # retries n) (initial_runtime now) = Some rt"
      and s: "sockets rt = replicate n CLOSED @ [CONNECTING]" and t: "timers rt = []"
    by blast
  have nth: "(replicate n CLOSED @ [CONNECTING]) ! n = CONNECTING"
    using nth_append_length [of "replicate n CLOSED" CONNECTING "[]"] by simp
  have "run [SocketClose n] rt = Some (onclose (rt\<lparr>sockets := (sockets rt)[n := CLOSED]\<rparr>))"
    using nth by (simp add: s)
  then have "run (Mount # retries n @ [SocketClose n]) (initial_runtime now)
        = Some (onclose (rt\<lparr>sockets := (sockets rt)[n := CLOSED]\<rparr>))"
    using r run_append [of "Mount # retries n" "[SocketClose n]"] by simp
  moreover have "timers (onclose (rt\<lparr>sockets := (sockets rt)[n := CLOSED]\<rparr>)) = [3000]"
    by (simp add: onclose_def t)
  moreover have "connectionStatus (view (onclose (rt\<lparr>sockets := (sockets rt)[n := CLOSED]\<rparr>)))
        = disconnected"
    by (simp add: onclose_def)
  ultimately show ?thesis by blast
qed

lemma one_connection_timers: "one_connection rt \<Longrightarrow> length (timers rt) \<le> 1"
  by (simp add: one_connection_def split: if_splits)

text \<open>
  C5 as the spec has it fails: after the channel closes and the retry timer fires, a new
  socket is connecting but the displayed status is still \<open>disconnected\<close>, not
  \<open>connecting\<close>.
\<close>

theorem C5_status_stays_disconnected:
  "map_option sockets (run [Mount, SocketOpen 0, SocketClose 0, TimerFire] (initial_runtime 0))
     = Some [CLOSED, CONNECTING] \<and>
   map_option (connectionStatus \<circ> view)
     (run [Mount, SocketOpen 0, SocketClose 0, TimerFire] (initial_runtime 0))
     = Some disconnected \<and>
   map_option (connectionStatus \<circ> view)
     (run [Mount, SocketOpen 0, SocketClose 0, TimerFire] (initial_runtime 0))
     \<noteq> Some connecting"
  by (simp add: runtime_defs)

text \<open>
  C5, amended. In every state the event loop reaches from the initial one: a socket's close
  event sets the status to \<open>disconnected\<close> at once and sets one timer of 3000 ms; the
  timer firing creates a new socket and leaves the status as it was; a socket's open event
  sets the status to \<open>connected\<close>; no event sets the status to \<open>connecting\<close>, which is
  only the initial value; at most one timer is pending and every pending timer has the delay
  3000. However many times in a row the connection has been lost, the next close sets the
  3000 ms timer again.
\<close>

theorem C5_reconnect_fixed_delay:
  assumes "run evs (initial_runtime now) = Some rt"
  shows "(\<forall>i rt'. step (SocketClose i) rt = Some rt' \<longrightarrow>
            connectionStatus (view rt') = disconnected \<and> timers rt' = timers rt @ [3000]) \<and>
         (\<forall>rt'. step TimerFire rt = Some rt' \<longrightarrow>
            view rt' = view rt \<and> sockets rt' = sockets rt @ [CONNECTING] \<and>
            timers rt' = tl (timers rt)) \<and>
         (\<forall>i rt'. step (SocketOpen i) rt = Some rt' \<longrightarrow>
            connectionStatus (view rt') = connected) \<and>
         (\<forall>e rt'. step e rt = Some rt' \<longrightarrow> connectionStatus (view rt') = connecting \<longrightarrow>
            connectionStatus (view rt) = connecting) \<and>
         length (timers rt) \<le> 1 \<and> set (timers rt) \<subseteq> {3000} \<and>
         (\<forall>n. \<exists>rt'. run (Mount # retries n @ [SocketClose n]) (initial_runtime now) = Some rt' \<and>
            timers rt' = [3000] \<and> connectionStatus (view rt') = disconnected)"
proof -
  have close: "\<forall>i rt'. step (SocketClose i) rt = Some rt' \<longrightarrow>
      connectionStatus (view rt') = disconnected \<and> timers rt' = timers rt @ [3000]"
    by (auto simp: onclose_def split: if_splits)
  have fire: "\<forall>rt'. step TimerFire rt = Some rt' \<longrightarrow>
      view rt' = view rt \<and> sockets rt' = sockets rt @ [CONNECTING] \<and>
      timers rt' = tl (timers rt)"
    by (auto simp: connectWebSocket_def split: list.splits)
  have "open": "\<forall>i rt'. step (SocketOpen i) rt = Some rt' \<longrightarrow>
      connectionStatus (view rt') = connected"
    by (auto simp: onopen_def split: if_splits)
  have never: "\<forall>e rt'. step e rt = Some rt' \<longrightarrow> connectionStatus (view rt') = connecting \<longrightarrow>
      connectionStatus (view rt) = connecting"
    using step_never_connecting by blast
  have inv: "one_connection rt \<and> set (timers rt) \<subseteq> {3000}"
    using run_one_connection [OF assms initial_one_connection] .
  then have single: "length (timers rt) \<le> 1"
    using one_connection_timers by blast
  have forever: "\<forall>n. \<exists>rt'. run (Mount # retries n @ [SocketClose n]) (initial_runtime now) = Some rt' \<and>
      timers rt' = [3000] \<and> connectionStatus (view rt') = disconnected"
    using close_after_retries by blast
  from close fire "open" never single inv forever show ?thesis by blast
qed

text \<open>
  The channel opens and closes: the status is \<open>disconnected\<close> with one 3000 ms timer
  pending; when it fires the status is still \<open>disconnected\<close>.
\<close>

theorem C5_reconnect_fixed_delay_witness:
  "map_option timers (run [Mount, SocketOpen 0, SocketClose 0] (initial_runtime 0))
     = Some [3000] \<and>
   length (timers (the (run [Mount, SocketOpen 0, SocketClose 0] (initial_runtime 0)))) \<le> 1 \<and>
   set (timers (the (run [Mount, SocketOpen 0, SocketClose 0] (initial_runtime 0))))
     \<subseteq> {3000} \<and>
   map_option (connectionStatus \<circ> view)
     (step TimerFire (the (run [Mount, SocketOpen 0, SocketClose 0] (initial_runtime 0))))
     = Some disconnected"
proof -
  let ?evs = "[Mount, SocketOpen 0, SocketClose 0]"
  have t: "map_option timers (run ?evs (initial_runtime 0)) = Some [3000]"
    by (simp add: runtime_defs)
  then obtain rt where r: "run ?evs (initial_runtime 0) = Some rt" by auto
  have st: "map_option (connectionStatus \<circ> view) (run ?evs (initial_runtime 0))
      = Some disconnected"
    by (simp add: runtime_defs)
  from t r obtain rt' where f: "step TimerFire rt = Some rt'"
    by (auto split: list.splits)
  note c5 = C5_reconnect_fixed_delay [OF r]
  from c5 f have "view rt' = view rt" by blast
  with st r f have "map_option (connectionStatus \<circ> view) (step TimerFire rt)
      = Some disconnected"
    by simp
  moreover from c5 have "length (timers rt) \<le> 1" and "set (timers rt) \<subseteq> {3000}"
    by blast+
  ultimately show ?thesis using t r by simp
qed

text \<open>
  C6 (the code does not do what the claim says). The component mounts, its socket opens,
  the component unmounts and the cleanup closes the socket; the socket's close event then
  runs \<^verbatim>\<open>onclose\<close>, which sets the retry timer, and when the timer fires a second socket
  is created and opens after the teardown.
\<close>

theorem C6_reconnects_after_teardown:
  "map_option phase
     (run [Mount, SocketOpen 0, Unmount, SocketClose 0, TimerFire, SocketOpen 1]
        (initial_runtime 0)) = Some TornDown \<and>
   map_option sockets
     (run [Mount, SocketOpen 0, Unmount] (initial_runtime 0)) = Some [CLOSING] \<and>
   map_option timers
     (run [Mount, SocketOpen 0, Unmount, SocketClose 0] (initial_runtime 0)) = Some [3000] \<and>
   map_option sockets
     (run [Mount, SocketOpen 0, Unmount, SocketClose 0, TimerFire, SocketOpen 1]
        (initial_runtime 0)) = Some [CLOSED, OPEN] \<and>
   map_option (connectionStatus \<circ> view)
     (run [Mount, SocketOpen 0, Unmount, SocketClose 0, TimerFire, SocketOpen 1]
        (initial_runtime 0)) = Some connected"
  by (simp add: runtime_defs)

section \<open>The snapshot loader\<close>

text \<open>
  C7 as the spec has it fails. When only the posts request is rejected, the distribution
  request has succeeded and yet \<open>metrics\<close> stays at its zeros, since \<^verbatim>\<open>setMetrics\<close>
  comes after the posts request. When the distribution request is rejected, the other two
  requests are never issued and their sections stay empty.
\<close>

theorem C7_failure_stops_the_loader:
  "distributionData (view (fetchData (Resolved (dist_body 10 5 5 20)) (Resolved [trend_point 1])
      Rejected (initial_runtime 0)))
     = [(''Positive'', JNum 10), (''Negative'', JNum 5), (''Neutral'', JNum 5)] \<and>
   metrics (view (fetchData (Resolved (dist_body 10 5 5 20)) (Resolved [trend_point 1])
      Rejected (initial_runtime 0))) = metrics0 \<and>
   requests (fetchData Rejected (Resolved [trend_point 1]) (Resolved [JNull])
      (initial_runtime 0)) = [GetDistribution 24] \<and>
   trendData (view (fetchData Rejected (Resolved [trend_point 1]) (Resolved [JNull])
      (initial_runtime 0))) = [] \<and>
   recentPosts (view (fetchData Rejected (Resolved [trend_point 1]) (Resolved [JNull])
      (initial_runtime 0))) = []"
  by (simp add: fetchData_def runtime_defs example_defs)

text \<open>
  C7, amended. The loader issues its requests one after the other inside one
  \<^verbatim>\<open>try\<close>: the distribution for 24 hours, then the trend by hour, then 50 posts, each only
  when the one before has succeeded. The first failure is logged once and ends the loader:
  nothing is requested again and no later request is issued. What was set before the
  failure stays: the distribution data after the first response, the trend after the
  second. The posts and the metrics are set only when all three requests succeed.
\<close>

theorem C7_sequential_loader:
  assumes "get_prop body ''distribution'' = Inr dist"
    and "get_prop dist ''positive'' = Inr p" and "get_prop dist ''negative'' = Inr n"
    and "get_prop dist ''neutral'' = Inr u" and "get_prop body ''total'' = Inr t"
  shows "fetchData Rejected rt rp s =
           s\<lparr>requests := requests s @ [GetDistribution 24],
             console := console s @ [ConsoleError ''Failed to fetch initial data:'' AxiosError],
             loader := Finished\<rparr> \<and>
         fetchData (Resolved body) Rejected rp s =
           s\<lparr>view := (view s)\<lparr>distributionData :=
                   [(''Positive'', p), (''Negative'', n), (''Neutral'', u)]\<rparr>,
             requests := requests s @ [GetDistribution 24, GetAggregate ''hour''],
             console := console s @ [ConsoleError ''Failed to fetch initial data:'' AxiosError],
             loader := Finished\<rparr> \<and>
         fetchData (Resolved body) (Resolved items) Rejected s =
           s\<lparr>view := (view s)\<lparr>distributionData :=
                   [(''Positive'', p), (''Negative'', n), (''Neutral'', u)],
                   trendData := map with_timestamp items\<rparr>,
             requests := requests s @ [GetDistribution 24, GetAggregate ''hour'', GetPosts 50],
             console := console s @ [ConsoleError ''Failed to fetch initial data:'' AxiosError],
             loader := Finished\<rparr> \<and>
         fetchData (Resolved body) (Resolved items) (Resolved posts) s =
           s\<lparr>view := (view s)\<lparr>distributionData :=
                   [(''Positive'', p), (''Negative'', n), (''Neutral'', u)],
                   trendData := map with_timestamp items,
                   recentPosts := posts,
                   metrics := JObj [(''total'', t), (''positive'', p), (''negative'', n),
                                    (''neutral'', u)]\<rparr>,
             requests := requests s @ [GetDistribution 24, GetAggregate ''hour'', GetPosts 50],
             loader := Finished\<rparr>"
proof -
  have a: "fetchData Rejected rt rp s =
           s\<lparr>requests := requests s @ [GetDistribution 24],
             console := console s @ [ConsoleError ''Failed to fetch initial data:'' AxiosError],
             loader := Finished\<rparr>"
    by (simp add: fetchData_def fetch_start_def on_dist_def on_trend_def on_posts_def
        catch_fetch_def)
  have d: "on_dist (Resolved body) (fetch_start s) =
           s\<lparr>view := (view s)\<lparr>distributionData :=
                   [(''Positive'', p), (''Negative'', n), (''Neutral'', u)]\<rparr>,
             requests := requests s @ [GetDistribution 24, GetAggregate ''hour''],
             loader := AwaitTrend body dist\<rparr>"
    by (simp add: fetch_start_def on_dist_def assms)
  have b: "fetchData (Resolved body) Rejected rp s =
           s\<lparr>view := (view s)\<lparr>distributionData :=
                   [(''Positive'', p), (''Negative'', n), (''Neutral'', u)]\<rparr>,
             requests := requests s @ [GetDistribution 24, GetAggregate ''hour''],
             console := console s @ [ConsoleError ''Failed to fetch initial data:'' AxiosError],
             loader := Finished\<rparr>"
    by (simp add: fetchData_def d on_trend_def on_posts_def catch_fetch_def)
  have c: "fetchData (Resolved body) (Resolved items) Rejected s =
           s\<lparr>view := (view s)\<lparr>distributionData :=
                   [(''Positive'', p), (''Negative'', n), (''Neutral'', u)],
                   trendData := map with_timestamp items\<rparr>,
             requests := requests s @ [GetDistribution 24, GetAggregate ''hour'', GetPosts 50],
             console := console s @ [ConsoleError ''Failed to fetch initial data:'' AxiosError],
             loader := Finished\<rparr>"
    by (simp add: fetchData_def d on_trend_def on_posts_def catch_fetch_def)
  have e: "fetchData (Resolved body) (Resolved items) (Resolved posts) s =
           s\<lparr>view := (view s)\<lparr>distributionData :=
                   [(''Positive'', p), (''Negative'', n), (''Neutral'', u)],
                   trendData := map with_timestamp items,
                   recentPosts := posts,
                   metrics := JObj [(''total'', t), (''positive'', p), (''negative'', n),
                                    (''neutral'', u)]\<rparr>,
             requests := requests s @ [GetDistribution 24, GetAggregate ''hour'', GetPosts 50],
             loader := Finished\<rparr>"
    by (simp add: fetchData_def d on_trend_def on_posts_def Let_def assms)
  from a b c e show ?thesis by blast
qed

text \<open>
  A distribution response of 10, 5, 5, total 20: with the trend request rejected only the
  distribution data is set and the posts request is never issued.
\<close>

theorem C7_sequential_loader_witness:
  "get_prop (dist_body 10 5 5 20) ''distribution''
     = Inr (JObj [(''positive'', JNum 10), (''negative'', JNum 5), (''neutral'', JNum 5)]) \<and>
   get_prop (JObj [(''positive'', JNum 10), (''negative'', JNum 5), (''neutral'', JNum 5)])
     ''positive'' = Inr (JNum 10) \<and>
   get_prop (JObj [(''positive'', JNum 10), (''negative'', JNum 5), (''neutral'', JNum 5)])
     ''negative'' = Inr (JNum 5) \<and>
   get_prop (JObj [(''positive'', JNum 10), (''negative'', JNum 5), (''neutral'', JNum 5)])
     ''neutral'' = Inr (JNum 5) \<and>
   get_prop (dist_body 10 5 5 20) ''total'' = Inr (JNum 20) \<and>
   requests (fetchData (Resolved (dist_body 10 5 5 20)) Rejected (Resolved [JNull])
      (initial_runtime 0)) = [GetDistribution 24, GetAggregate ''hour''] \<and>
   distributionData (view (fetchData (Resolved (dist_body 10 5 5 20)) Rejected
      (Resolved [JNull]) (initial_runtime 0)))
     = [(''Positive'', JNum 10), (''Negative'', JNum 5), (''Neutral'', JNum 5)] \<and>
   recentPosts (view (fetchData (Resolved (dist_body 10 5 5 20)) Rejected (Resolved [JNull])
      (initial_runtime 0))) = [] \<and>
   metrics (view (fetchData (Resolved (dist_body 10 5 5 20)) (Resolved []) (Resolved [JNull])
      (initial_runtime 0)))
     = JObj [(''total'', JNum 20), (''positive'', JNum 10), (''negative'', JNum 5),
             (''neutral'', JNum 5)]"
proof -
  let ?dist = "JObj [(''positive'', JNum 10), (''negative'', JNum 5), (''neutral'', JNum 5)]"
  have h1: "get_prop (dist_body 10 5 5 20) ''distribution'' = Inr ?dist"
    by (simp add: dist_body_def)
  have h2: "get_prop ?dist ''positive'' = Inr (JNum 10)" by simp
  have h3: "get_prop ?dist ''negative'' = Inr (JNum 5)" by simp
  have h4: "get_prop ?dist ''neutral'' = Inr (JNum 5)" by simp
  have h5: "get_prop (dist_body 10 5 5 20) ''total'' = Inr (JNum 20)"
    by (simp add: dist_body_def)
  note c7 = C7_sequential_loader [OF h1 h2 h3 h4 h5, of _ _ "initial_runtime 0"]
  from c7 [of Rejected "Resolved [JNull]" "[]" "[JNull]"]
  have r: "fetchData (Resolved (dist_body 10 5 5 20)) Rejected (Resolved [JNull])
        (initial_runtime 0) =
      (initial_runtime 0)\<lparr>view := (view (initial_runtime 0))\<lparr>distributionData :=
              [(''Positive'', JNum 10), (''Negative'', JNum 5), (''Neutral'', JNum 5)]\<rparr>,
        requests := requests (initial_runtime 0) @ [GetDistribution 24, GetAggregate ''hour''],
        console := console (initial_runtime 0)
                   @ [ConsoleError ''Failed to fetch initial data:'' AxiosError],
        loader := Finished\<rparr>"
    and f: "fetchData (Resolved (dist_body 10 5 5 20)) (Resolved []) (Resolved [JNull])
        (initial_runtime 0) =
      (initial_runtime 0)\<lparr>view := (view (initial_runtime 0))\<lparr>distributionData :=
              [(''Positive'', JNum 10), (''Negative'', JNum 5), (''Neutral'', JNum 5)],
              trendData := map with_timestamp [],
              recentPosts := [JNull],
              metrics := JObj [(''total'', JNum 20), (''positive'', JNum 10),
                               (''negative'', JNum 5), (''neutral'', JNum 5)]\<rparr>,
        requests := requests (initial_runtime 0)
                    @ [GetDistribution 24, GetAggregate ''hour'', GetPosts 50],
        loader := Finished\<rparr>"
    by blast+
  show ?thesis
    unfolding r f using h1 h2 h3 h4 h5
    by (simp add: initial_runtime_def initial_dashboard_def)
qed

section \<open>What a frame changes\<close>

text \<open>
  C8 as the spec has it fails. A frame of another kind (here \<^verbatim>\<open>heartbeat\<close>) is neither a
  \<^verbatim>\<open>new_post\<close> nor a \<^verbatim>\<open>metrics_update\<close>, yet \<open>lastUpdate\<close> becomes its receipt time;
  so does it for the frame \<^verbatim>\<open>null\<close>, on which the handler then throws.
\<close>

theorem C8_other_kind_stamps_lastUpdate:
  "new_post_of heartbeat_frame = None \<and> metrics_update_of heartbeat_frame = None \<and>
   lastUpdate (initial_dashboard 0) = 0 \<and>
   lastUpdate (snd (onmessage heartbeat_frame 7 (initial_dashboard 0))) = 7 \<and>
   onmessage (Parses JNull) 7 (initial_dashboard 0)
     = (Threw TypeError, (initial_dashboard 0)\<lparr>lastUpdate := 7\<rparr>)"
  by (simp add: handler_defs heartbeat_frame_def initial_dashboard_def)

text \<open>
  C8, amended. \<open>lastUpdate\<close> becomes the receipt time exactly when the frame parses,
  whatever its kind or shape, and keeps its value when the frame does not parse. A parsed
  frame whose \<^verbatim>\<open>type\<close> is neither \<^verbatim>\<open>new_post\<close> nor \<^verbatim>\<open>metrics_update\<close> changes
  nothing but \<open>lastUpdate\<close>.
\<close>

theorem C8_lastUpdate_when_parsed:
  "lastUpdate (snd (onmessage f now v))
     = (case JSON_parse f of Inl e \<Rightarrow> lastUpdate v | Inr m \<Rightarrow> now) \<and>
   (\<forall>m ty. JSON_parse f = Inr m \<and> get_prop m ''type'' = Inr ty \<and>
       ty \<noteq> JStr ''new_post'' \<and> ty \<noteq> JStr ''metrics_update'' \<longrightarrow>
       onmessage f now v = (Completed, v\<lparr>lastUpdate := now\<rparr>))"
proof -
  have "\<forall>m ty. JSON_parse f = Inr m \<and> get_prop m ''type'' = Inr ty \<and>
       ty \<noteq> JStr ''new_post'' \<and> ty \<noteq> JStr ''metrics_update'' \<longrightarrow>
       onmessage f now v = (Completed, v\<lparr>lastUpdate := now\<rparr>)"
    by (simp add: onmessage_def Let_def)
  with onmessage_lastUpdate [of f now v] show ?thesis by blast
qed

text \<open>The \<^verbatim>\<open>heartbeat\<close> frame received at time 7 changes \<open>lastUpdate\<close> to 7 and nothing else.\<close>

theorem C8_lastUpdate_when_parsed_witness:
  "JSON_parse heartbeat_frame = Inr (JObj [(''type'', JStr ''heartbeat'')]) \<and>
   get_prop (JObj [(''type'', JStr ''heartbeat'')]) ''type'' = Inr (JStr ''heartbeat'') \<and>
   JStr ''heartbeat'' \<noteq> JStr ''new_post'' \<and> JStr ''heartbeat'' \<noteq> JStr ''metrics_update'' \<and>
   onmessage heartbeat_frame 7 (initial_dashboard 0)
     = (Completed, (initial_dashboard 0)\<lparr>lastUpdate := 7\<rparr>)"
proof -
  have h: "JSON_parse heartbeat_frame = Inr (JObj [(''type'', JStr ''heartbeat'')]) \<and>
      get_prop (JObj [(''type'', JStr ''heartbeat'')]) ''type'' = Inr (JStr ''heartbeat'') \<and>
      JStr ''heartbeat'' \<noteq> JStr ''new_post'' \<and> JStr ''heartbeat'' \<noteq> JStr ''metrics_update''"
    by (simp add: heartbeat_frame_def)
  with C8_lastUpdate_when_parsed [of heartbeat_frame 7 "initial_dashboard 0"]
  have "onmessage heartbeat_frame 7 (initial_dashboard 0)
      = (Completed, (initial_dashboard 0)\<lparr>lastUpdate := 7\<rparr>)"
    by blast
  with h show ?thesis by blast
qed

text \<open>
  C9 as the spec has it fails: on a frame that does not parse the handler does not end
  normally, it throws the SyntaxError of \<^verbatim>\<open>JSON.parse\<close>, which nothing catches.
\<close>

theorem C9_unparseable_throws:
  "fst (onmessage Unparseable 7 (initial_dashboard 0)) = Threw SyntaxError \<and>
   fst (onmessage Unparseable 7 (initial_dashboard 0)) \<noteq> Completed \<and>
   uncaught (deliver Unparseable 7 (initial_runtime 0)) = [SyntaxError]"
  by (simp add: onmessage_def deliver_def initial_runtime_def)

text \<open>
  C9, amended. On a frame that does not parse the handler throws a SyntaxError before it
  sets any state: the view, with its connection status, is unchanged, and so are the
  sockets and the timers; the error is left uncaught. The socket stays open, so the next
  frame is handled.
\<close>

theorem C9_unparseable_changes_nothing:
  "onmessage Unparseable now v = (Threw SyntaxError, v) \<and>
   deliver Unparseable now rt = rt\<lparr>uncaught := uncaught rt @ [SyntaxError]\<rparr> \<and>
   view (deliver Unparseable now rt) = view rt \<and>
   sockets (deliver Unparseable now rt) = sockets rt \<and>
   timers (deliver Unparseable now rt) = timers rt \<and>
   (step (SocketMessage i f t) (deliver Unparseable now rt) = None)
     = (step (SocketMessage i f t) rt = None)"
  by (simp add: onmessage_unparseable deliver_def)

lemma onmessage_metrics_update_exact:
  assumes "metrics_update_of f = Some d" and "get_prop d ''positive'' = Inr p"
    and "get_prop d ''negative'' = Inr n" and "get_prop d ''neutral'' = Inr u"
  shows "onmessage f now v =
           (Completed,
            v\<lparr>lastUpdate := now, metrics := d,
              distributionData := [(''Positive'', p), (''Negative'', n), (''Neutral'', u)]\<rparr>)"
  using assms
  by (cases f) (auto simp: metrics_update_of_def onmessage_def Let_def
      split: sum.splits if_splits)

lemma onmessage_metrics_update_throws:
  assumes "metrics_update_of f = Some d" and "get_prop d ''positive'' = Inl e"
  shows "onmessage f now v = (Threw e, v\<lparr>lastUpdate := now, metrics := d\<rparr>)"
  using assms
  by (cases f) (auto simp: metrics_update_of_def onmessage_def Let_def
      split: sum.splits if_splits)

text \<open>
  C10 as the spec has it fails: the metrics and the distribution data are not the only
  things a \<^verbatim>\<open>metrics_update\<close> frame replaces. \<open>lastUpdate\<close> becomes the receipt time
  as well, here 7 in place of 0.
\<close>

theorem C10_metrics_update_stamps_lastUpdate:
  "metrics_update_of (metrics_frame (counts 12 5 5 22)) = Some (counts 12 5 5 22) \<and>
   lastUpdate (initial_dashboard 0) = 0 \<and>
   lastUpdate (snd (onmessage (metrics_frame (counts 12 5 5 22)) 7 (initial_dashboard 0))) = 7 \<and>
   lastUpdate (snd (onmessage (metrics_frame (counts 12 5 5 22)) 7 (initial_dashboard 0)))
     \<noteq> lastUpdate (initial_dashboard 0)"
  by (simp add: handler_defs example_defs initial_dashboard_def)

text \<open>
  C10, amended. No frame changes the trend, whatever it is, so no push event changes it
  after the snapshot has set it. A frame taken as a \<^verbatim>\<open>metrics_update\<close> leaves the feed
  and the connection status as they were, sets \<open>metrics\<close> to the value it carries and
  \<open>lastUpdate\<close> to the receipt time. When the three counts of that value can be read the
  distribution data is rebuilt from them and nothing else changes; when the value is
  \<^verbatim>\<open>null\<close> or \<^verbatim>\<open>undefined\<close> the handler throws after \<^verbatim>\<open>setMetrics\<close> and the
  distribution data keeps its value.
\<close>

theorem C10_metrics_update_changes:
  "trendData (snd (onmessage f now v)) = trendData v \<and>
   trendData (view (deliver f now rt)) = trendData (view rt) \<and>
   (\<forall>d. metrics_update_of f = Some d \<longrightarrow>
      recentPosts (snd (onmessage f now v)) = recentPosts v \<and>
      connectionStatus (snd (onmessage f now v)) = connectionStatus v \<and>
      metrics (snd (onmessage f now v)) = d \<and>
      lastUpdate (snd (onmessage f now v)) = now) \<and>
   (\<forall>d p n u. metrics_update_of f = Some d \<and> get_prop d ''positive'' = Inr p \<and>
      get_prop d ''negative'' = Inr n \<and> get_prop d ''neutral'' = Inr u \<longrightarrow>
      onmessage f now v =
        (Completed,
         v\<lparr>lastUpdate := now, metrics := d,
           distributionData := [(''Positive'', p), (''Negative'', n), (''Neutral'', u)]\<rparr>)) \<and>
   (\<forall>d e. metrics_update_of f = Some d \<and> get_prop d ''positive'' = Inl e \<longrightarrow>
      onmessage f now v = (Threw e, v\<lparr>lastUpdate := now, metrics := d\<rparr>))"
proof -
  have feed: "\<forall>d. metrics_update_of f = Some d \<longrightarrow>
      recentPosts (snd (onmessage f now v)) = recentPosts v"
    using metrics_update_not_new_post onmessage_feed_other by blast
  have stamp: "\<forall>d. metrics_update_of f = Some d \<longrightarrow> lastUpdate (snd (onmessage f now v)) = now"
    by (cases f) (auto simp: metrics_update_of_def onmessage_lastUpdate)
  have new: "\<forall>d. metrics_update_of f = Some d \<longrightarrow> metrics (snd (onmessage f now v)) = d"
    using onmessage_metrics by blast
  have exact: "\<forall>d p n u. metrics_update_of f = Some d \<and> get_prop d ''positive'' = Inr p \<and>
      get_prop d ''negative'' = Inr n \<and> get_prop d ''neutral'' = Inr u \<longrightarrow>
      onmessage f now v =
        (Completed,
         v\<lparr>lastUpdate := now, metrics := d,
           distributionData := [(''Positive'', p), (''Negative'', n), (''Neutral'', u)]\<rparr>)"
    using onmessage_metrics_update_exact by blast
  have throws: "\<forall>d e. metrics_update_of f = Some d \<and> get_prop d ''positive'' = Inl e \<longrightarrow>
      onmessage f now v = (Threw e, v\<lparr>lastUpdate := now, metrics := d\<rparr>)"
    using onmessage_metrics_update_throws by blast
  have trend: "trendData (snd (onmessage f now v)) = trendData v \<and>
      trendData (view (deliver f now rt)) = trendData (view rt)"
    by (simp add: onmessage_trend)
  have status: "connectionStatus (snd (onmessage f now v)) = connectionStatus v"
    by (rule onmessage_status)
  from trend feed status new stamp exact throws show ?thesis by blast
qed

text \<open>
  After a snapshot with one trend point and one post, an update carrying 12, 5, 5 and total
  22 received at time 7: the trend point and the post are in place, the metrics, the
  distribution data and \<open>lastUpdate\<close> are new.
\<close>

theorem C10_metrics_update_changes_witness:
  "metrics_update_of (metrics_frame (counts 12 5 5 22)) = Some (counts 12 5 5 22) \<and>
   get_prop (counts 12 5 5 22) ''positive'' = Inr (JNum 12) \<and>
   get_prop (counts 12 5 5 22) ''negative'' = Inr (JNum 5) \<and>
   get_prop (counts 12 5 5 22) ''neutral'' = Inr (JNum 5) \<and>
   trendData (view (fetchData (Resolved (dist_body 10 5 5 20)) (Resolved [trend_point 1])
      (Resolved [JObj [(''post_id'', JNum 1)]]) (initial_runtime 0))) = [trend_point 1] \<and>
   recentPosts (view (fetchData (Resolved (dist_body 10 5 5 20)) (Resolved [trend_point 1])
      (Resolved [JObj [(''post_id'', JNum 1)]]) (initial_runtime 0)))
     = [JObj [(''post_id'', JNum 1)]] \<and>
   onmessage (metrics_frame (counts 12 5 5 22)) 7
      (view (fetchData (Resolved (dist_body 10 5 5 20)) (Resolved [trend_point 1])
         (Resolved [JObj [(''post_id'', JNum 1)]]) (initial_runtime 0)))
     = (Completed,
        \<lparr>distributionData = [(''Positive'', JNum 12), (''Negative'', JNum 5),
                              (''Neutral'', JNum 5)],
          trendData = [trend_point 1],
          recentPosts = [JObj [(''post_id'', JNum 1)]],
          metrics = counts 12 5 5 22,
          connectionStatus = connecting,
          lastUpdate = 7\<rparr>)"
proof -
  let ?v = "view (fetchData (Resolved (dist_body 10 5 5 20)) (Resolved [trend_point 1])
      (Resolved [JObj [(''post_id'', JNum 1)]]) (initial_runtime 0))"
  have h: "metrics_update_of (metrics_frame (counts 12 5 5 22)) = Some (counts 12 5 5 22)"
    by (rule metrics_update_of_metrics_frame)
  have g: "get_prop (counts 12 5 5 22) ''positive'' = Inr (JNum 12)"
    "get_prop (counts 12 5 5 22) ''negative'' = Inr (JNum 5)"
    "get_prop (counts 12 5 5 22) ''neutral'' = Inr (JNum 5)"
    by (simp_all add: counts_def)
  have v: "?v = \<lparr>distributionData = [(''Positive'', JNum 10), (''Negative'', JNum 5),
                                       (''Neutral'', JNum 5)],
                  trendData = [trend_point 1],
                  recentPosts = [JObj [(''post_id'', JNum 1)]],
                  metrics = JObj [(''total'', JNum 20), (''positive'', JNum 10),
                                  (''negative'', JNum 5), (''neutral'', JNum 5)],
                  connectionStatus = connecting,
                  lastUpdate = 0\<rparr>"
    by (simp add: fetchData_def runtime_defs dist_body_def trend_point_def Let_def)
  from C10_metrics_update_changes [of "metrics_frame (counts 12 5 5 22)" 7 ?v] h g
  have "onmessage (metrics_frame (counts 12 5 5 22)) 7 ?v =
      (Completed,
       ?v\<lparr>lastUpdate := 7, metrics := counts 12 5 5 22,
          distributionData := [(''Positive'', JNum 12), (''Negative'', JNum 5),
                               (''Neutral'', JNum 5)]\<rparr>)"
    by blast
  then have "onmessage (metrics_frame (counts 12 5 5 22)) 7 ?v =
      (Completed,
        \<lparr>distributionData = [(''Positive'', JNum 12), (''Negative'', JNum 5),
                              (''Neutral'', JNum 5)],
          trendData = [trend_point 1],
          recentPosts = [JObj [(''post_id'', JNum 1)]],
          metrics = counts 12 5 5 22,
          connectionStatus = connecting,
          lastUpdate = 7\<rparr>)"
    by (simp add: v)
  moreover have "trendData ?v = [trend_point 1]" and "recentPosts ?v = [JObj [(''post_id'', JNum 1)]]"
    by (simp_all add: v)
  ultimately show ?thesis using h g by blast
qed

end
